theory Spec2Isabelle
  imports Main
begin

section \<open>JavaScript values used by the components\<close>

text \<open>
  A JavaScript string is a sequence of UTF-16 code units; a code unit is modelled by its
  number. Literals of the source are written \<open>str ''...''\<close>.
\<close>

type_synonym jsstring = "nat list"

definition str :: "string \<Rightarrow> jsstring" where
  "str cs = map of_char cs"

text \<open>
  \<open>String.prototype.trim\<close> removes the ECMAScript WhiteSpace and LineTerminator code
  points from both ends: TAB, LF, VT, FF, CR, SP, NBSP, the Unicode space separators,
  LS, PS and the byte order mark.
\<close>

definition isWhiteSpace :: "nat \<Rightarrow> bool" where
  "isWhiteSpace c \<longleftrightarrow>
     c \<in> set [0x9, 0xA, 0xB, 0xC, 0xD, 0x20, 0xA0, 0x1680, 0x2000, 0x2001, 0x2002, 0x2003,
       0x2004, 0x2005, 0x2006, 0x2007, 0x2008, 0x2009, 0x200A, 0x2028, 0x2029, 0x202F,
       0x205F, 0x3000, 0xFEFF]"

definition trim :: "jsstring \<Rightarrow> jsstring" where
  "trim s = rev (dropWhile isWhiteSpace (rev (dropWhile isWhiteSpace s)))"

definition startsWith :: "jsstring \<Rightarrow> jsstring \<Rightarrow> bool" where
  "startsWith s p \<longleftrightarrow> take (length p) s = p"

text \<open>
  Truthiness of a value of type \<open>string | null\<close>: \<open>null\<close> and the empty string are
  falsy, every other string is truthy.
\<close>

fun truthy :: "jsstring option \<Rightarrow> bool" where
  "truthy None = False"
| "truthy (Some s) = (s \<noteq> [])"

text \<open>A \<open>File\<close>: its name, its declared MIME type and its bytes.\<close>

record File =
  name :: jsstring
  type :: jsstring
  bytes :: "nat list"

definition isImage :: "File \<Rightarrow> bool" where
  "isImage f \<longleftrightarrow> startsWith (type f) (str ''image/'')"

text \<open>
  A value thrown by an awaited promise: an instance of \<open>Error\<close> with its \<open>message\<close>,
  or any other value. An awaited promise settles with \<open>Inr\<close> of its value or \<open>Inl\<close> of
  what it threw.
\<close>

datatype thrown = ErrorInstance jsstring | NotAnError

type_synonym outcome = "thrown + jsstring"

text \<open>
  What a handler does besides writing its component's state, in the order of the calls:
  calls on the event, the browser, the parent callback and the two imported services
  \<open>fileToBase64\<close> and \<open>generateProductScene\<close>.
\<close>

datatype effect =
    PreventDefault
  | StopPropagation
  | Alert jsstring
  | ReadAsDataURL File
  | OnFileChange "File option"
  | FileToBase64 File
  | GenerateProductScene jsstring jsstring jsstring jsstring
  | ConsoleError thrown

section \<open>App.tsx\<close>

record app_state =
  productImage :: "File option"
  logoImage :: "File option"
  subject :: jsstring
  scene :: jsstring
  generatedImage :: "jsstring option"
  isLoading :: bool
  error :: "jsstring option"

definition initial_app :: app_state where
  "initial_app = \<lparr>productImage = None, logoImage = None, subject = [], scene = [],
     generatedImage = None, isLoading = False, error = None\<rparr>"

text \<open>\<open>productImage && logoImage && subject.trim() && scene.trim()\<close>, as a truth value.\<close>

definition isFormValid :: "app_state \<Rightarrow> bool" where
  "isFormValid s \<longleftrightarrow>
     productImage s \<noteq> None \<and> logoImage s \<noteq> None \<and> trim (subject s) \<noteq> [] \<and> trim (scene s) \<noteq> []"

definition validation_message :: jsstring where
  "validation_message = str ''Please fill in all fields and upload both images.''"

definition unknown_error_message :: jsstring where
  "unknown_error_message = str ''An unknown error occurred. Check the console for details.''"

text \<open>
  \<open>handleGenerate\<close> is an async function. It runs up to its first \<open>await\<close> in the turn of
  the call, and one more stretch each time the awaited promise settles. A suspended call
  is a \<open>task\<close>: the \<open>await\<close> it stands at and the values of its closure it still needs
  (\<open>logoImage\<close>, \<open>subject\<close>, \<open>scene\<close> of the render that created the callback, and
  \<open>productB64\<close>).
\<close>

datatype task =
    AwaitProductB64 File jsstring jsstring
  | AwaitLogoB64 jsstring jsstring jsstring
  | AwaitResultImage

text \<open>
  The stretch from the call to the first \<open>await\<close>. The last case of the inner
  \<open>case\<close> cannot be taken: \<open>isFormValid\<close> excludes it.
\<close>

definition handleGenerate :: "app_state \<Rightarrow> app_state \<times> effect list \<times> task option" where
  "handleGenerate s =
     (if \<not> isFormValid s then (s\<lparr>error := Some validation_message\<rparr>, [], None)
      else case (productImage s, logoImage s) of
        (Some p, Some l) \<Rightarrow>
          (s\<lparr>isLoading := True, error := None, generatedImage := None\<rparr>,
           [FileToBase64 p], Some (AwaitProductB64 l (subject s) (scene s)))
      | _ \<Rightarrow> (s, [], None))"

text \<open>
  The callback is rebuilt by every render, from the values of that render. When it is
  called before the component has rendered again after a state change, the values it
  reads (\<open>isFormValid\<close>, the two images, \<open>subject\<close>, \<open>scene\<close>) are those of the render
  \<open>c\<close> it comes from, and its writes go to the state \<open>s\<close> of that moment.
  \<open>handleGenerate s\<close> is the call from a render of \<open>s\<close> itself.
\<close>

definition handleGenerate_closure ::
    "app_state \<Rightarrow> app_state \<Rightarrow> app_state \<times> effect list \<times> task option" where
  "handleGenerate_closure c s =
     (if \<not> isFormValid c then (s\<lparr>error := Some validation_message\<rparr>, [], None)
      else case (productImage c, logoImage c) of
        (Some p, Some l) \<Rightarrow>
          (s\<lparr>isLoading := True, error := None, generatedImage := None\<rparr>,
           [FileToBase64 p], Some (AwaitProductB64 l (subject c) (scene c)))
      | _ \<Rightarrow> (s, [], None))"

text \<open>\<open>err instanceof Error ? err.message : "An unknown error occurred. ..."\<close>\<close>

fun error_text :: "thrown \<Rightarrow> jsstring" where
  "error_text (ErrorInstance m) = m"
| "error_text NotAnError = unknown_error_message"

text \<open>
  The stretch run when the awaited promise settles, on the state the component has at
  that moment: the next call of the \<open>try\<close> block, or \<open>catch\<close> and \<open>finally\<close>.
\<close>

fun resume :: "task \<Rightarrow> outcome \<Rightarrow> app_state \<Rightarrow> app_state \<times> effect list \<times> task option" where
  "resume (AwaitProductB64 l subj sc) (Inr productB64) s =
     (s, [FileToBase64 l], Some (AwaitLogoB64 productB64 subj sc))"
| "resume (AwaitLogoB64 productB64 subj sc) (Inr logoB64) s =
     (s, [GenerateProductScene productB64 logoB64 subj sc], Some AwaitResultImage)"
| "resume AwaitResultImage (Inr resultImage) s =
     (s\<lparr>generatedImage := Some resultImage, isLoading := False\<rparr>, [], None)"
| "resume t (Inl err) s =
     (s\<lparr>error := Some (error_text err), isLoading := False\<rparr>, [ConsoleError err], None)"

text \<open>The \<open>disabled\<close> attribute of the submit button.\<close>

definition submit_disabled :: "app_state \<Rightarrow> bool" where
  "submit_disabled s \<longleftrightarrow> \<not> isFormValid s \<or> isLoading s"

text \<open>The four conditional children of the result panel, in the order of the JSX.\<close>

datatype panel = LoadingIndicator | ErrorPanel jsstring | ResultImage jsstring | EmptyPlaceholder

definition render :: "app_state \<Rightarrow> panel list" where
  "render s =
     (if isLoading s then [LoadingIndicator] else []) @
     (case error s of Some e \<Rightarrow> if e \<noteq> [] then [ErrorPanel e] else [] | None \<Rightarrow> []) @
     (case generatedImage s of
        Some g \<Rightarrow> if g \<noteq> [] \<and> \<not> isLoading s then [ResultImage g] else []
      | None \<Rightarrow> []) @
     (if \<not> isLoading s \<and> \<not> truthy (error s) \<and> \<not> truthy (generatedImage s)
      then [EmptyPlaceholder] else [])"

section \<open>ImageUploader\<close>

text \<open>
  The component's state: the \<open>preview\<close> and the file list of the hidden file input that
  \<open>fileInputRef\<close> points to (\<open>None\<close> while \<open>fileInputRef.current\<close> is \<open>null\<close>).
\<close>

record uploader =
  preview :: "jsstring option"
  fileInputRef :: "File list option"

definition initial_uploader :: uploader where
  "initial_uploader = \<lparr>preview = None, fileInputRef = Some []\<rparr>"

text \<open>
  The handlers take the event's file list (\<open>event.target.files\<close>,
  \<open>event.dataTransfer.files\<close>; the empty list also stands for an absent one) and look at
  its first element only. Starting the \<open>FileReader\<close> is an effect; its \<open>onloadend\<close>
  runs in a later turn.
\<close>

definition handleFileChange :: "File list \<Rightarrow> uploader \<Rightarrow> uploader \<times> effect list" where
  "handleFileChange files u =
     (case files of
        f # _ \<Rightarrow>
          if \<not> isImage f then (u, [Alert (str ''Please select an image file.'')])
          else (u, [ReadAsDataURL f, OnFileChange (Some f)])
      | [] \<Rightarrow> (u\<lparr>preview := None\<rparr>, [OnFileChange None]))"

definition handleDrop :: "File list \<Rightarrow> uploader \<Rightarrow> uploader \<times> effect list" where
  "handleDrop files u =
     (case files of
        f # _ \<Rightarrow>
          if isImage f then
            (u\<lparr>fileInputRef := (case fileInputRef u of Some _ \<Rightarrow> Some [f] | None \<Rightarrow> None)\<rparr>,
             [PreventDefault, StopPropagation, ReadAsDataURL f, OnFileChange (Some f)])
          else (u, [PreventDefault, StopPropagation, Alert (str ''Please drop an image file.'')])
      | [] \<Rightarrow> (u, [PreventDefault, StopPropagation, Alert (str ''Please drop an image file.'')]))"

text \<open>\<open>reader.onloadend\<close>: \<open>setPreview(reader.result)\<close>, where the result of a failed read is \<open>null\<close>.\<close>

definition onloadend :: "jsstring option \<Rightarrow> uploader \<Rightarrow> uploader \<times> effect list" where
  "onloadend result u = (u\<lparr>preview := result\<rparr>, [])"

section \<open>The mounted application\<close>

text \<open>
  \<open>App\<close> with its two uploaders. Every handler runs to its end (or to its next
  \<open>await\<close>) without interruption, and \<open>step\<close> is one such turn: a user gesture, the end
  of a file read, the settling of an awaited promise, or a render. \<open>app\<close> is the state
  of the hooks, which the setters write; \<open>committed\<close> is the state of the last render,
  which the page shows: the \<open>disabled\<close> attribute of the button, the result panel and
  the callback on the button are those of \<open>committed\<close> until \<open>Render\<close> brings it up to
  date. \<open>pending\<close> holds the suspended calls of \<open>handleGenerate\<close> and \<open>effects\<close> every
  effect so far.
\<close>

datatype slot = ProductSlot | LogoSlot

record sys =
  app :: app_state
  committed :: app_state
  productUploader :: uploader
  logoUploader :: uploader
  pending :: "task list"
  effects :: "effect list"

definition initial_sys :: sys where
  "initial_sys = \<lparr>app = initial_app, committed = initial_app,
     productUploader = initial_uploader, logoUploader = initial_uploader,
     pending = [], effects = []\<rparr>"

datatype event =
    InputChange slot "File list"
  | Drop slot "File list"
  | ReaderLoadEnd slot "jsstring option"
  | SubjectChange jsstring
  | SceneChange jsstring
  | ClickGenerate
  | Settle nat outcome
  | Render

fun uploader_of :: "slot \<Rightarrow> sys \<Rightarrow> uploader" where
  "uploader_of ProductSlot \<sigma> = productUploader \<sigma>"
| "uploader_of LogoSlot \<sigma> = logoUploader \<sigma>"

fun image_of :: "slot \<Rightarrow> app_state \<Rightarrow> File option" where
  "image_of ProductSlot s = productImage s"
| "image_of LogoSlot s = logoImage s"

text \<open>The \<open>onFileChange\<close> prop of a slot: \<open>setProductImage\<close> or \<open>setLogoImage\<close>.\<close>

fun deliver :: "slot \<Rightarrow> app_state \<Rightarrow> effect \<Rightarrow> app_state" where
  "deliver ProductSlot s (OnFileChange fo) = s\<lparr>productImage := fo\<rparr>"
| "deliver LogoSlot s (OnFileChange fo) = s\<lparr>logoImage := fo\<rparr>"
| "deliver sl s e = s"

fun uploader_turn :: "slot \<Rightarrow> uploader \<times> effect list \<Rightarrow> sys \<Rightarrow> sys" where
  "uploader_turn ProductSlot (u, es) \<sigma> =
     \<sigma>\<lparr>app := foldl (deliver ProductSlot) (app \<sigma>) es, productUploader := u,
       effects := effects \<sigma> @ es\<rparr>"
| "uploader_turn LogoSlot (u, es) \<sigma> =
     \<sigma>\<lparr>app := foldl (deliver LogoSlot) (app \<sigma>) es, logoUploader := u,
       effects := effects \<sigma> @ es\<rparr>"

text \<open>
  A \<open>change\<close> event of the file input comes with the input's file list already replaced
  by the selection. A click reaches \<open>handleGenerate\<close> unless the button of the last
  render is disabled; nothing else guards the call, and the handler tests no
  \<open>isLoading\<close>. \<open>Settle i r\<close> settles the promise that the \<open>i\<close>-th suspended call
  awaits.
\<close>

fun step :: "sys \<Rightarrow> event \<Rightarrow> sys" where
  "step \<sigma> (InputChange sl files) =
     uploader_turn sl (handleFileChange files ((uploader_of sl \<sigma>)\<lparr>fileInputRef := Some files\<rparr>)) \<sigma>"
| "step \<sigma> (Drop sl files) = uploader_turn sl (handleDrop files (uploader_of sl \<sigma>)) \<sigma>"
| "step \<sigma> (ReaderLoadEnd sl result) = uploader_turn sl (onloadend result (uploader_of sl \<sigma>)) \<sigma>"
| "step \<sigma> (SubjectChange v) = \<sigma>\<lparr>app := (app \<sigma>)\<lparr>subject := v\<rparr>\<rparr>"
| "step \<sigma> (SceneChange v) = \<sigma>\<lparr>app := (app \<sigma>)\<lparr>scene := v\<rparr>\<rparr>"
| "step \<sigma> ClickGenerate =
     (if submit_disabled (committed \<sigma>) then \<sigma>
      else case handleGenerate_closure (committed \<sigma>) (app \<sigma>) of
        (s, es, t) \<Rightarrow>
          \<sigma>\<lparr>app := s, effects := effects \<sigma> @ es,
            pending := pending \<sigma> @ (case t of Some t' \<Rightarrow> [t'] | None \<Rightarrow> [])\<rparr>)"
| "step \<sigma> (Settle i r) =
     (if i < length (pending \<sigma>) then
        case resume (pending \<sigma> ! i) r (app \<sigma>) of
          (s, es, t) \<Rightarrow>
            \<sigma>\<lparr>app := s, effects := effects \<sigma> @ es,
              pending := (case t of
                  Some t' \<Rightarrow> (pending \<sigma>)[i := t']
                | None \<Rightarrow> take i (pending \<sigma>) @ drop (Suc i) (pending \<sigma>))\<rparr>
      else \<sigma>)"
| "step \<sigma> Render = \<sigma>\<lparr>committed := app \<sigma>\<rparr>"

definition run :: "event list \<Rightarrow> sys" where
  "run evs = foldl step initial_sys evs"

text \<open>
  Event sequences in which a render separates every click from the click before it, as
  in every sequence of user gestures: the component renders between two gestures. The
  flag tells whether a render has happened since the last click (or since mounting).
\<close>

fun paced :: "bool \<Rightarrow> event list \<Rightarrow> bool" where
  "paced r [] = True"
| "paced r (Render # evs) = paced True evs"
| "paced r (ClickGenerate # evs) = (r \<and> paced False evs)"
| "paced r (e # evs) = paced r evs"

section \<open>Notions used by the properties\<close>

text \<open>
  The two notions of this section follow the specification's wording, to be compared with
  the code. First its tagged result state: the three state variables \<open>isLoading\<close>,
  \<open>error\<close> and \<open>generatedImage\<close> read as one tagged value. A combination of the three
  that is none of the four tags has no reading.
\<close>

datatype generation_result = Idle | Loading | Error jsstring | Success jsstring

definition generationResult :: "app_state \<Rightarrow> generation_result option" where
  "generationResult s =
     (case (isLoading s, error s, generatedImage s) of
        (False, None, None) \<Rightarrow> Some Idle
      | (True, None, None) \<Rightarrow> Some Loading
      | (False, Some m, None) \<Rightarrow> Some (Error m)
      | (False, None, Some b) \<Rightarrow> Some (Success b)
      | _ \<Rightarrow> None)"

text \<open>Second its rendering rule: the one panel of each tag.\<close>

fun panel_of :: "generation_result \<Rightarrow> panel" where
  "panel_of Loading = LoadingIndicator"
| "panel_of (Error m) = ErrorPanel m"
| "panel_of (Success b) = ResultImage b"
| "panel_of Idle = EmptyPlaceholder"

fun is_generate_call :: "effect \<Rightarrow> bool" where
  "is_generate_call (GenerateProductScene a b c d) = True"
| "is_generate_call e = False"

fun is_callback :: "effect \<Rightarrow> bool" where
  "is_callback (OnFileChange fo) = True"
| "is_callback e = False"

text \<open>
  One call of \<open>handleGenerate\<close> followed to its end: \<open>submit s rs\<close> makes the call on
  \<open>s\<close> and settles its awaited promises with the outcomes \<open>rs\<close>, in turn, for as long as
  the call is suspended.
\<close>

fun drive :: "app_state \<times> effect list \<times> task option \<Rightarrow> outcome list \<Rightarrow>
    app_state \<times> effect list \<times> task option" where
  "drive (s, es, Some t) (r # rs) =
     (case resume t r s of (s', es', t') \<Rightarrow> drive (s', es @ es', t') rs)"
| "drive c rs = c"

definition submit :: "app_state \<Rightarrow> outcome list \<Rightarrow> app_state \<times> effect list \<times> task option" where
  "submit s rs = drive (handleGenerate s) rs"

text \<open>Invariants of the mounted application.\<close>

definition exclusive :: "app_state \<Rightarrow> bool" where
  "exclusive s \<longleftrightarrow>
     (\<not> isLoading s \<or> error s = None \<and> generatedImage s = None) \<and>
     (error s = None \<or> generatedImage s = None)"

definition result_ok :: "sys \<Rightarrow> bool" where
  "result_ok \<sigma> \<longleftrightarrow>
     length (pending \<sigma>) \<le> 1 \<and> (isLoading (app \<sigma>) \<longleftrightarrow> pending \<sigma> \<noteq> []) \<and>
     exclusive (app \<sigma>) \<and> exclusive (committed \<sigma>)"

definition paced_ok :: "bool \<Rightarrow> sys \<Rightarrow> bool" where
  "paced_ok r \<sigma> \<longleftrightarrow>
     result_ok \<sigma> \<and> (\<not> r \<or> \<not> isLoading (app \<sigma>) \<or> isLoading (committed \<sigma>))"

definition ref_ok :: "sys \<Rightarrow> bool" where
  "ref_ok \<sigma> \<longleftrightarrow>
     fileInputRef (productUploader \<sigma>) \<noteq> None \<and> fileInputRef (logoUploader \<sigma>) \<noteq> None"

text \<open>Concrete files, forms and event sequences.\<close>

definition cat_png :: File where
  "cat_png = \<lparr>name = str ''cat.png'', type = str ''image/png'', bytes = [137, 80, 78, 71]\<rparr>"

definition logo_png :: File where
  "logo_png = \<lparr>name = str ''logo.png'', type = str ''image/png'', bytes = [137, 80]\<rparr>"

definition document_pdf :: File where
  "document_pdf = \<lparr>name = str ''document.pdf'', type = str ''application/pdf'', bytes = [37]\<rparr>"

definition fill_form :: "event list" where
  "fill_form = [InputChange ProductSlot [cat_png], Drop LogoSlot [logo_png],
     SubjectChange (str ''A dog''), SceneChange (str ''On the moon''), Render]"

definition complete_form :: app_state where
  "complete_form = \<lparr>productImage = Some cat_png, logoImage = Some logo_png,
     subject = str ''A dog'', scene = str ''On the moon'',
     generatedImage = None, isLoading = False, error = None\<rparr>"

definition awaiting_result :: "event list" where
  "awaiting_result = fill_form @ [ClickGenerate, Settle 0 (Inr (str ''cHJvZA=='')),
     Settle 0 (Inr (str ''bG9nbw==''))]"

text \<open>The complete form with its subject overwritten by blanks, and rendered.\<close>

definition blank_subject :: "event list" where
  "blank_subject = fill_form @ [SubjectChange (str ''  ''), Render]"

text \<open>Two clicks dispatched with no render between them, on the complete form.\<close>

definition double_click :: "event list" where
  "double_click = fill_form @ [ClickGenerate, ClickGenerate]"

text \<open>
  The two submissions of \<open>double_click\<close> followed to their ends: the first is rejected at
  its first await, the second succeeds.
\<close>

definition overlapping :: "event list" where
  "overlapping = double_click @ [Settle 0 (Inl (ErrorInstance (str ''quota exceeded''))),
     Settle 0 (Inr (str ''cHJvZA=='')), Settle 0 (Inr (str ''bG9nbw=='')),
     Settle 0 (Inr (str ''aW1n'')), Render]"

text \<open>A submission rejected with an \<open>Error\<close> whose message is the empty string.\<close>

definition empty_message :: "event list" where
  "empty_message = awaiting_result @ [Settle 0 (Inl (ErrorInstance [])), Render]"

section \<open>Basic facts\<close>

lemma handleGenerate_closure_self: "handleGenerate_closure s s = handleGenerate s"
  by (simp add: handleGenerate_closure_def handleGenerate_def)

lemma deliver_result [simp]:
  "generatedImage (deliver sl s e) = generatedImage s"
  "isLoading (deliver sl s e) = isLoading s"
  "error (deliver sl s e) = error s"
  "subject (deliver sl s e) = subject s"
  "scene (deliver sl s e) = scene s"
  by (cases "(sl, s, e)" rule: deliver.cases; simp)+

lemma foldl_deliver_result [simp]:
  "generatedImage (foldl (deliver sl) s es) = generatedImage s"
  "isLoading (foldl (deliver sl) s es) = isLoading s"
  "error (foldl (deliver sl) s es) = error s"
  "subject (foldl (deliver sl) s es) = subject s"
  "scene (foldl (deliver sl) s es) = scene s"
  by (induction es arbitrary: s; simp)+

lemma uploader_turn_fields [simp]:
  "pending (uploader_turn sl ues \<sigma>) = pending \<sigma>"
  "committed (uploader_turn sl ues \<sigma>) = committed \<sigma>"
  "generatedImage (app (uploader_turn sl ues \<sigma>)) = generatedImage (app \<sigma>)"
  "isLoading (app (uploader_turn sl ues \<sigma>)) = isLoading (app \<sigma>)"
  "error (app (uploader_turn sl ues \<sigma>)) = error (app \<sigma>)"
  by (cases sl; cases ues; simp)+

lemma uploader_turn_others [simp]:
  "productUploader (uploader_turn LogoSlot ues \<sigma>) = productUploader \<sigma>"
  "logoUploader (uploader_turn ProductSlot ues \<sigma>) = logoUploader \<sigma>"
  "productUploader (uploader_turn ProductSlot ues \<sigma>) = fst ues"
  "logoUploader (uploader_turn LogoSlot ues \<sigma>) = fst ues"
  by (cases ues; simp)+

lemma handler_ref [simp]:
  "fileInputRef (fst (handleFileChange files u)) = fileInputRef u"
  "fileInputRef (fst (handleDrop files u)) = None \<longleftrightarrow> fileInputRef u = None"
  "fileInputRef (fst (onloadend r u)) = fileInputRef u"
  by (auto simp: handleFileChange_def handleDrop_def onloadend_def split: list.splits option.splits)

lemma exclusive_cong:
  "isLoading s' = isLoading s \<Longrightarrow> error s' = error s \<Longrightarrow> generatedImage s' = generatedImage s \<Longrightarrow>
   exclusive s' = exclusive s"
  by (simp add: exclusive_def)

lemma handleGenerate_closure_valid:
  assumes "isFormValid c"
  obtains p l where "productImage c = Some p" and "logoImage c = Some l"
    and "handleGenerate_closure c s =
      (s\<lparr>isLoading := True, error := None, generatedImage := None\<rparr>,
       [FileToBase64 p], Some (AwaitProductB64 l (subject c) (scene c)))"
  using assms by (auto simp: handleGenerate_closure_def isFormValid_def)

text \<open>Every turn but a click keeps the invariant, with the flag as it is.\<close>

lemma paced_ok_other:
  assumes "paced_ok r \<sigma>" and "ev \<noteq> ClickGenerate" and "ev \<noteq> Render"
  shows "paced_ok r (step \<sigma> ev)"
proof (cases ev)
  case (Settle i x)
  show ?thesis
  proof (cases "i < length (pending \<sigma>)")
    case False
    with assms Settle show ?thesis by simp
  next
    case True
    with assms obtain t where p: "pending \<sigma> = [t]" and i: "i = 0"
      by (cases "pending \<sigma>") (auto simp: paced_ok_def result_ok_def)
    show ?thesis
      using assms(1) Settle p i
      by (cases "(t, x, app \<sigma>)" rule: resume.cases)
         (auto simp: paced_ok_def result_ok_def exclusive_def)
  qed
next
  case (InputChange sl files)
  with assms(1) show ?thesis
    by (auto simp: paced_ok_def result_ok_def exclusive_def)
next
  case (Drop sl files)
  with assms(1) show ?thesis
    by (auto simp: paced_ok_def result_ok_def exclusive_def)
next
  case (ReaderLoadEnd sl x)
  with assms(1) show ?thesis
    by (auto simp: paced_ok_def result_ok_def exclusive_def)
next
  case (SubjectChange v)
  with assms(1) show ?thesis
    by (auto simp: paced_ok_def result_ok_def exclusive_def)
next
  case (SceneChange v)
  with assms(1) show ?thesis
    by (auto simp: paced_ok_def result_ok_def exclusive_def)
qed (use assms in simp_all)

lemma paced_ok_render: "paced_ok r \<sigma> \<Longrightarrow> paced_ok True (step \<sigma> Render)"
  by (auto simp: paced_ok_def result_ok_def)

text \<open>A click after a render either finds the button disabled or no call suspended.\<close>

lemma paced_ok_click:
  assumes "paced_ok True \<sigma>"
  shows "paced_ok False (step \<sigma> ClickGenerate)"
proof (cases "submit_disabled (committed \<sigma>)")
  case True
  with assms show ?thesis by (simp add: paced_ok_def)
next
  case False
  then have v: "isFormValid (committed \<sigma>)" and nl: "\<not> isLoading (committed \<sigma>)"
    by (simp_all add: submit_disabled_def)
  from assms nl have e: "pending \<sigma> = []" and na: "\<not> isLoading (app \<sigma>)"
    by (auto simp: paced_ok_def result_ok_def)
  from v obtain p l where "handleGenerate_closure (committed \<sigma>) (app \<sigma>) =
      ((app \<sigma>)\<lparr>isLoading := True, error := None, generatedImage := None\<rparr>,
       [FileToBase64 p], Some (AwaitProductB64 l (subject (committed \<sigma>)) (scene (committed \<sigma>))))"
    by (rule handleGenerate_closure_valid)
  with assms False e show ?thesis
    by (simp add: paced_ok_def result_ok_def exclusive_def)
qed

lemma paced_ok_foldl:
  "paced_ok r \<sigma> \<Longrightarrow> paced r evs \<Longrightarrow> result_ok (foldl step \<sigma> evs)"
proof (induction r evs arbitrary: \<sigma> rule: paced.induct)
  case (1 r)
  then show ?case by (simp add: paced_ok_def)
next
  case (2 r evs)
  then show ?case by (simp add: paced_ok_render del: step.simps)
next
  case (3 r evs)
  then show ?case by (simp add: paced_ok_click del: step.simps)
qed (simp_all add: paced_ok_other del: step.simps)

lemma run_snoc: "run (evs @ [ev]) = step (run evs) ev"
  by (simp add: run_def)

lemma run_append: "run (evs @ evs') = foldl step (run evs) evs'"
  by (simp add: run_def)

lemma result_ok_run: "paced True evs \<Longrightarrow> result_ok (run evs)"
  unfolding run_def
  by (rule paced_ok_foldl [of True])
     (simp_all add: paced_ok_def result_ok_def exclusive_def initial_sys_def initial_app_def)

lemma ref_ok_step: "ref_ok \<sigma> \<Longrightarrow> ref_ok (step \<sigma> ev)"
proof (cases ev)
  case (InputChange sl files)
  assume "ref_ok \<sigma>"
  with InputChange show ?thesis by (cases sl) (simp_all add: ref_ok_def)
next
  case (Drop sl files)
  assume "ref_ok \<sigma>"
  with Drop show ?thesis by (cases sl) (simp_all add: ref_ok_def)
next
  case (ReaderLoadEnd sl r)
  assume "ref_ok \<sigma>"
  with ReaderLoadEnd show ?thesis by (cases sl) (simp_all add: ref_ok_def)
qed (auto simp: ref_ok_def split: prod.splits)

lemma ref_ok_run: "ref_ok (run evs)"
proof (induction evs rule: rev_induct)
  case Nil
  show ?case by (simp add: run_def ref_ok_def initial_sys_def initial_uploader_def)
next
  case (snoc ev evs)
  then show ?case by (simp add: run_snoc ref_ok_step)
qed

lemma dropWhile_all_iff: "(\<forall>c \<in> set (dropWhile P s). P c) \<longleftrightarrow> (\<forall>c \<in> set s. P c)"
  by (induction s) auto

lemma trim_empty_iff: "trim s = [] \<longleftrightarrow> (\<forall>c \<in> set s. isWhiteSpace c)"
  by (simp add: trim_def dropWhile_all_iff)

lemma files_are_images: "isImage cat_png" "isImage logo_png" "\<not> isImage document_pdf"
  by (simp_all add: isImage_def startsWith_def str_def cat_png_def logo_png_def document_pdf_def)

lemma run_fill_form:
  "run fill_form = \<lparr>app = complete_form, committed = complete_form,
     productUploader = \<lparr>preview = None, fileInputRef = Some [cat_png]\<rparr>,
     logoUploader = \<lparr>preview = None, fileInputRef = Some [logo_png]\<rparr>,
     pending = [],
     effects = [ReadAsDataURL cat_png, OnFileChange (Some cat_png), PreventDefault,
       StopPropagation, ReadAsDataURL logo_png, OnFileChange (Some logo_png)]\<rparr>"
  by (simp add: run_def fill_form_def complete_form_def initial_sys_def initial_app_def
      initial_uploader_def handleFileChange_def handleDrop_def files_are_images)

lemma complete_form_valid: "isFormValid complete_form"
  by (simp add: isFormValid_def complete_form_def trim_def str_def isWhiteSpace_def)

lemma complete_form_fields:
  "productImage complete_form = Some cat_png" "logoImage complete_form = Some logo_png"
  "isLoading complete_form = False" "subject complete_form = str ''A dog''"
  "scene complete_form = str ''On the moon''" "error complete_form = None"
  "generatedImage complete_form = None"
  by (simp_all add: complete_form_def)

lemmas eval_click = run_append run_fill_form complete_form_valid complete_form_fields
  submit_disabled_def handleGenerate_closure_def

lemma paced_examples:
  "paced True fill_form" "paced True awaiting_result" "paced True (awaiting_result @ [Render])"
  "paced True empty_message"
  by (simp_all add: fill_form_def awaiting_result_def empty_message_def)

lemma run_awaiting_result:
  "pending (run awaiting_result) = [AwaitResultImage]"
  "app (run awaiting_result) =
     complete_form\<lparr>isLoading := True, error := None, generatedImage := None\<rparr>"
  by (simp_all add: awaiting_result_def eval_click)

lemma run_double_click:
  "pending (run double_click) =
     [AwaitProductB64 logo_png (str ''A dog'') (str ''On the moon''),
      AwaitProductB64 logo_png (str ''A dog'') (str ''On the moon'')]"
  "app (run double_click) =
     complete_form\<lparr>isLoading := True, error := None, generatedImage := None\<rparr>"
  by (simp_all add: double_click_def eval_click)

lemma run_overlapping:
  "committed (run overlapping) = complete_form\<lparr>isLoading := False,
      error := Some (str ''quota exceeded''), generatedImage := Some (str ''aW1n'')\<rparr>"
  by (simp add: overlapping_def run_append [of double_click] run_double_click)

lemma run_empty_message:
  "committed (run empty_message) = complete_form\<lparr>isLoading := False, error := Some [],
      generatedImage := None\<rparr>"
  by (simp add: empty_message_def run_append [of awaiting_result] run_awaiting_result)



section \<open>The result panel\<close>

lemma tag_and_panel:
  assumes "exclusive s"
  shows "\<exists>g. generationResult s = Some g \<and> length (render s) = 1 \<and>
    (g \<noteq> Error [] \<longrightarrow> g \<noteq> Success [] \<longrightarrow> render s = [panel_of g])"
  using assms
  by (cases "isLoading s"; cases "error s"; cases "generatedImage s")
     (auto simp: exclusive_def generationResult_def render_def)

text \<open>
  C1, as amended. In every state that the mounted application reaches by events whose
  clicks are separated by a render, in the state of the hooks and in the rendered one,
  the three result variables form exactly one of the four tags Idle, Loading,
  Error(message) and Success(image), the result panel has exactly one child, and that
  child is the panel of the tag whenever the stored message or image is not the empty
  string.
\<close>

theorem paced_result_is_tag_with_its_panel:
  assumes "paced True evs"
  shows "(\<exists>g. generationResult (app (run evs)) = Some g \<and> length (render (app (run evs))) = 1 \<and>
      (g \<noteq> Error [] \<longrightarrow> g \<noteq> Success [] \<longrightarrow> render (app (run evs)) = [panel_of g])) \<and>
    (\<exists>g. generationResult (committed (run evs)) = Some g \<and>
      length (render (committed (run evs))) = 1 \<and>
      (g \<noteq> Error [] \<longrightarrow> g \<noteq> Success [] \<longrightarrow> render (committed (run evs)) = [panel_of g]))"
proof -
  from assms have "result_ok (run evs)" by (rule result_ok_run)
  then have "exclusive (app (run evs))" and "exclusive (committed (run evs))"
    by (simp_all add: result_ok_def)
  then show ?thesis by (intro conjI tag_and_panel)
qed

theorem paced_result_is_tag_with_its_panel_witness:
  "paced True (awaiting_result @ [Render]) \<and>
   generationResult (committed (run (awaiting_result @ [Render]))) = Some Loading \<and>
   render (committed (run (awaiting_result @ [Render]))) = [LoadingIndicator]"
proof -
  have h: "paced True (awaiting_result @ [Render])" by (rule paced_examples)
  have g: "generationResult (committed (run (awaiting_result @ [Render]))) = Some Loading"
    by (simp add: run_snoc run_awaiting_result generationResult_def complete_form_fields)
  from paced_result_is_tag_with_its_panel [OF h] obtain g' where
    "generationResult (committed (run (awaiting_result @ [Render]))) = Some g'"
    and r: "g' \<noteq> Error [] \<longrightarrow> g' \<noteq> Success [] \<longrightarrow>
      render (committed (run (awaiting_result @ [Render]))) = [panel_of g']"
    by blast
  with g have "g' = Loading" by simp
  with r have "render (committed (run (awaiting_result @ [Render]))) = [LoadingIndicator]"
    by simp
  with h g show ?thesis by blast
qed

text \<open>
  C1 as stated fails twice. Two clicks with no render between them start two
  submissions; when the first is rejected and the second succeeds, the rendered state
  holds a message and an image, which is none of the four tags, and the panel shows the
  error and the image. And with clicks separated by renders, a rejection whose message
  is the empty string leaves the tag Error with the placeholder on the page.
\<close>

theorem overlap_or_empty_message_breaks_panel_rule:
  "generationResult (committed (run overlapping)) = None \<and>
   render (committed (run overlapping)) =
     [ErrorPanel (str ''quota exceeded''), ResultImage (str ''aW1n'')] \<and>
   paced True empty_message \<and>
   generationResult (committed (run empty_message)) = Some (Error []) \<and>
   render (committed (run empty_message)) = [EmptyPlaceholder]"
  by (simp add: run_overlapping run_empty_message generationResult_def render_def
      paced_examples str_def)


section \<open>Submitting an incomplete form\<close>

lemma validation_message_nonempty: "validation_message \<noteq> []"
  by (simp add: validation_message_def str_def)

text \<open>
  C2, as amended. A submit on an incomplete form (an image absent, or a subject or
  scene that is empty after trimming) never calls a service. A click on the button of
  a render of such a form is a no-op. \<open>handleGenerate\<close> itself, called on such a form,
  only stores the fixed validation message and suspends nothing; when no submission is
  loading and no image is stored, the result is the tag Error with that message and the
  error panel alone.
\<close>

theorem incomplete_submit_requests_nothing:
  assumes "productImage s = None \<or> logoImage s = None \<or> trim (subject s) = [] \<or> trim (scene s) = []"
  shows "handleGenerate s = (s\<lparr>error := Some validation_message\<rparr>, [], None) \<and>
    validation_message = str ''Please fill in all fields and upload both images.'' \<and>
    (\<not> isLoading s \<longrightarrow> generatedImage s = None \<longrightarrow>
      generationResult (fst (handleGenerate s)) = Some (Error validation_message) \<and>
      render (fst (handleGenerate s)) = [ErrorPanel validation_message]) \<and>
    (committed \<sigma> = s \<longrightarrow> step \<sigma> ClickGenerate = \<sigma>)"
proof -
  from assms have n: "\<not> isFormValid s" by (auto simp: isFormValid_def)
  then have h: "handleGenerate s = (s\<lparr>error := Some validation_message\<rparr>, [], None)"
    by (simp add: handleGenerate_def)
  have t: "generationResult (s\<lparr>error := Some validation_message\<rparr>) = Some (Error validation_message) \<and>
      render (s\<lparr>error := Some validation_message\<rparr>) = [ErrorPanel validation_message]"
    if "\<not> isLoading s" "generatedImage s = None"
    using that by (simp add: generationResult_def render_def validation_message_nonempty)
  from n have c: "step \<sigma> ClickGenerate = \<sigma>" if "committed \<sigma> = s"
    using that by (simp add: submit_disabled_def)
  from h t c show ?thesis by (simp add: validation_message_def)
qed

theorem incomplete_submit_requests_nothing_witness:
  "trim (subject (complete_form\<lparr>subject := str ''  ''\<rparr>)) = [] \<and>
   handleGenerate (complete_form\<lparr>subject := str ''  ''\<rparr>) =
     (complete_form\<lparr>subject := str ''  '', error := Some validation_message\<rparr>, [], None) \<and>
   render (fst (handleGenerate (complete_form\<lparr>subject := str ''  ''\<rparr>))) =
     [ErrorPanel validation_message] \<and>
   committed (run blank_subject) = complete_form\<lparr>subject := str ''  ''\<rparr> \<and>
   step (run blank_subject) ClickGenerate = run blank_subject"
proof -
  have h: "trim (subject (complete_form\<lparr>subject := str ''  ''\<rparr>)) = []"
    by (simp add: trim_empty_iff str_def isWhiteSpace_def)
  then have d: "productImage (complete_form\<lparr>subject := str ''  ''\<rparr>) = None \<or>
      logoImage (complete_form\<lparr>subject := str ''  ''\<rparr>) = None \<or>
      trim (subject (complete_form\<lparr>subject := str ''  ''\<rparr>)) = [] \<or>
      trim (scene (complete_form\<lparr>subject := str ''  ''\<rparr>)) = []"
    by blast
  have l: "\<not> isLoading (complete_form\<lparr>subject := str ''  ''\<rparr>)"
    and g: "generatedImage (complete_form\<lparr>subject := str ''  ''\<rparr>) = None"
    by (simp_all add: complete_form_fields)
  have c: "committed (run blank_subject) = complete_form\<lparr>subject := str ''  ''\<rparr>"
    by (simp add: blank_subject_def run_append run_fill_form)
  note t = incomplete_submit_requests_nothing [OF d, where \<sigma> = "run blank_subject"]
  from t h l g c show ?thesis by blast
qed

text \<open>
  C2 as stated fails: with only the subject filled in, the click changes nothing, no
  message is stored and the page keeps the placeholder; and a call of the handler on an
  incomplete form with a stored image gives none of the four tags, with the error and
  the image on the page.
\<close>

theorem incomplete_click_is_no_op:
  "\<not> isFormValid (committed (run [SubjectChange (str ''A dog''), Render])) \<and>
   run [SubjectChange (str ''A dog''), Render, ClickGenerate] =
     run [SubjectChange (str ''A dog''), Render] \<and>
   error (app (run [SubjectChange (str ''A dog''), Render, ClickGenerate])) = None \<and>
   render (committed (run [SubjectChange (str ''A dog''), Render, ClickGenerate, Render])) =
     [EmptyPlaceholder] \<and>
   \<not> isFormValid (complete_form\<lparr>scene := [], generatedImage := Some (str ''iVBORw0KGgo='')\<rparr>) \<and>
   generationResult (fst (handleGenerate
     (complete_form\<lparr>scene := [], generatedImage := Some (str ''iVBORw0KGgo='')\<rparr>))) = None \<and>
   render (fst (handleGenerate
     (complete_form\<lparr>scene := [], generatedImage := Some (str ''iVBORw0KGgo='')\<rparr>))) =
     [ErrorPanel validation_message, ResultImage (str ''iVBORw0KGgo='')]"
proof -
  have b: "str ''iVBORw0KGgo='' \<noteq> []" by (simp add: str_def)
  show ?thesis
    by (simp add: b run_def initial_sys_def initial_app_def submit_disabled_def isFormValid_def
        handleGenerate_def generationResult_def render_def complete_form_fields
        validation_message_nonempty trim_def)
qed

text \<open>
  C10. On an incomplete form \<open>handleGenerate\<close> writes the \<open>error\<close> variable only:
  \<open>generatedImage\<close> and \<open>isLoading\<close> keep their values, so an image stored by an earlier
  success stays in the state beside the validation message.
\<close>

theorem incomplete_submit_writes_error_only:
  assumes "\<not> isFormValid s"
  shows "fst (handleGenerate s) = s\<lparr>error := Some validation_message\<rparr> \<and>
    generatedImage (fst (handleGenerate s)) = generatedImage s \<and>
    isLoading (fst (handleGenerate s)) = isLoading s \<and>
    error (fst (handleGenerate s)) = Some validation_message"
  using assms by (simp add: handleGenerate_def)

theorem incomplete_submit_writes_error_only_witness:
  "\<not> isFormValid (complete_form\<lparr>scene := [], generatedImage := Some (str ''iVBORw0KGgo='')\<rparr>) \<and>
   generatedImage (fst (handleGenerate
     (complete_form\<lparr>scene := [], generatedImage := Some (str ''iVBORw0KGgo='')\<rparr>))) =
     Some (str ''iVBORw0KGgo='') \<and>
   error (fst (handleGenerate
     (complete_form\<lparr>scene := [], generatedImage := Some (str ''iVBORw0KGgo='')\<rparr>))) =
     Some validation_message"
proof -
  have h: "\<not> isFormValid (complete_form\<lparr>scene := [], generatedImage := Some (str ''iVBORw0KGgo='')\<rparr>)"
    by (simp add: isFormValid_def trim_def)
  from incomplete_submit_writes_error_only [OF h] h show ?thesis by simp
qed

section \<open>Submitting a complete form\<close>

lemma handleGenerate_valid:
  assumes "isFormValid s" "productImage s = Some p" "logoImage s = Some l"
  shows "handleGenerate s = (s\<lparr>isLoading := True, error := None, generatedImage := None\<rparr>,
     [FileToBase64 p], Some (AwaitProductB64 l (subject s) (scene s)))"
  using assms by (simp add: handleGenerate_def)

lemma drive_done [simp]: "drive (s, es, None) rs = (s, es, None)"
  by (cases rs) simp_all

lemma drive_error [simp]:
  "drive (s, es, Some t) (Inl e # rs) =
     (s\<lparr>error := Some (error_text e), isLoading := False\<rparr>, es @ [ConsoleError e], None)"
  by simp

text \<open>
  C3, as amended. A call of \<open>handleGenerate\<close> on a complete form sets \<open>isLoading\<close> and
  clears \<open>error\<close> and \<open>generatedImage\<close> before any promise settles, and starts encoding
  the product image. The logo image is encoded only after the product encoding succeeded,
  and \<open>generateProductScene\<close> is called only after both succeeded: once then, with the
  two encodings and the subject and scene of the form, and never more than once. When an
  encoding fails, the call ends without it.
\<close>

theorem submit_calls_in_order:
  assumes "isFormValid s" "productImage s = Some p" "logoImage s = Some l"
  shows "handleGenerate s = (s\<lparr>isLoading := True, error := None, generatedImage := None\<rparr>,
      [FileToBase64 p], Some (AwaitProductB64 l (subject s) (scene s))) \<and>
    snd (submit s (Inl e # rs)) = ([FileToBase64 p, ConsoleError e], None) \<and>
    snd (submit s (Inr pb # Inl e # rs)) =
      ([FileToBase64 p, FileToBase64 l, ConsoleError e], None) \<and>
    take 3 (fst (snd (submit s (Inr pb # Inr lb # rs)))) =
      [FileToBase64 p, FileToBase64 l,
       GenerateProductScene pb lb (subject s) (scene s)] \<and>
    filter is_generate_call (fst (snd (submit s (Inr pb # Inr lb # rs)))) =
      [GenerateProductScene pb lb (subject s) (scene s)] \<and>
    length (filter is_generate_call (fst (snd (submit s rs)))) \<le> 1"
proof -
  note h = handleGenerate_valid [OF assms]
  have a: "snd (submit s (Inl e # rs)) = ([FileToBase64 p, ConsoleError e], None)" for e rs
    by (simp add: submit_def h)
  have b: "snd (submit s (Inr x # Inl e # rs)) =
      ([FileToBase64 p, FileToBase64 l, ConsoleError e], None)" for x e rs
    by (simp add: submit_def h)
  have c: "fst (snd (submit s (Inr x # Inr y # rs))) =
      [FileToBase64 p, FileToBase64 l, GenerateProductScene x y (subject s) (scene s)] @
      (case rs of Inl e # _ \<Rightarrow> [ConsoleError e] | _ \<Rightarrow> [])" for x y rs
  proof (cases rs)
    case Nil
    then show ?thesis by (simp add: submit_def h)
  next
    case (Cons r rs')
    then show ?thesis by (cases r) (simp_all add: submit_def h)
  qed
  have d: "length (filter is_generate_call (fst (snd (submit s rs)))) \<le> 1"
  proof (cases rs)
    case Nil
    then show ?thesis by (simp add: submit_def h)
  next
    case (Cons r1 rs1)
    show ?thesis
    proof (cases r1)
      case (Inl e)
      with Cons a show ?thesis by simp
    next
      case (Inr x)
      note r1 = this
      show ?thesis
      proof (cases rs1)
        case Nil
        with Cons r1 show ?thesis by (simp add: submit_def h)
      next
        case (Cons r2 rs2)
        note rs1 = this
        show ?thesis
        proof (cases r2)
          case (Inl e)
          with \<open>rs = r1 # rs1\<close> r1 rs1 b show ?thesis by simp
        next
          case (Inr y)
          with \<open>rs = r1 # rs1\<close> r1 rs1 c [of x y rs2] show ?thesis
            by (simp split: list.splits sum.splits)
        qed
      qed
    qed
  qed
  from h a b c [of pb lb rs] d show ?thesis
    by (simp split: list.splits sum.splits)
qed


theorem submit_calls_in_order_witness:
  "isFormValid complete_form \<and> productImage complete_form = Some cat_png \<and>
   logoImage complete_form = Some logo_png \<and>
   snd (submit complete_form [Inl NotAnError, Inr (str ''aW1n'')]) =
     ([FileToBase64 cat_png, ConsoleError NotAnError], None) \<and>
   filter is_generate_call
     (fst (snd (submit complete_form [Inr (str ''cHJvZA==''), Inr (str ''bG9nbw==''), Inr (str ''aW1n'')]))) =
     [GenerateProductScene (str ''cHJvZA=='') (str ''bG9nbw=='') (subject complete_form) (scene complete_form)]"
proof -
  have v: "isFormValid complete_form"
    by (simp add: isFormValid_def complete_form_def trim_def str_def isWhiteSpace_def)
  have p: "productImage complete_form = Some cat_png"
    and l: "logoImage complete_form = Some logo_png"
    by (simp_all add: complete_form_def)
  note t = submit_calls_in_order [OF v p l, where e = NotAnError and rs = "[Inr (str ''aW1n'')]"
      and pb = "str ''cHJvZA==''" and lb = "str ''bG9nbw==''"]
  from t v p l show ?thesis by blast
qed

text \<open>
  C3 as stated fails: the form is complete and the button is clicked, the encoding of the
  product image fails, and the submission ends without a call of
  \<open>generateProductScene\<close>.
\<close>

theorem encode_failure_skips_generation:
  "isFormValid (app (run fill_form)) \<and>
   pending (run (fill_form @ [ClickGenerate])) =
     [AwaitProductB64 logo_png (str ''A dog'') (str ''On the moon'')] \<and>
   pending (run (fill_form @ [ClickGenerate, Settle 0 (Inl NotAnError)])) = [] \<and>
   filter is_generate_call (effects (run (fill_form @ [ClickGenerate, Settle 0 (Inl NotAnError)]))) = []"
  by (simp add: eval_click)

section \<open>The end of a submission\<close>






section \<open>Selecting and dropping files\<close>

lemma image_of_deliver [simp]:
  "image_of sl (deliver sl s (OnFileChange fo)) = fo"
  by (cases sl) simp_all

lemma uploader_of_turn [simp]:
  "uploader_of sl (uploader_turn sl ues \<sigma>) = fst ues"
  by (cases sl; cases ues; simp)

lemma app_turn [simp]:
  "app (uploader_turn sl (u, es) \<sigma>) = foldl (deliver sl) (app \<sigma>) es"
  by (cases sl) simp_all

lemma effects_turn [simp]:
  "effects (uploader_turn sl (u, es) \<sigma>) = effects \<sigma> @ es"
  by (cases sl) simp_all

lemma deliver_other [simp]:
  "deliver sl s PreventDefault = s" "deliver sl s StopPropagation = s"
  "deliver sl s (Alert m) = s" "deliver sl s (ReadAsDataURL f) = s"
  by (cases sl; simp)+

text \<open>
  C6. A file whose type does not start with "image/", chosen in the file dialog or
  dropped on the control, raises an alert and nothing else: the handler leaves the
  component's state as it is, so the preview stays, and it does not call
  \<open>onFileChange\<close>, so the parent's state, with the image it was given before, stays.
\<close>

theorem non_image_rejected:
  assumes "\<not> isImage f"
  shows "handleFileChange (f # fs) u = (u, [Alert (str ''Please select an image file.'')]) \<and>
    handleDrop (f # fs) u =
      (u, [PreventDefault, StopPropagation, Alert (str ''Please drop an image file.'')]) \<and>
    app (step \<sigma> (InputChange sl (f # fs))) = app \<sigma> \<and>
    preview (uploader_of sl (step \<sigma> (InputChange sl (f # fs)))) = preview (uploader_of sl \<sigma>) \<and>
    filter is_callback (effects (step \<sigma> (InputChange sl (f # fs)))) =
      filter is_callback (effects \<sigma>) \<and>
    app (step \<sigma> (Drop sl (f # fs))) = app \<sigma> \<and>
    uploader_of sl (step \<sigma> (Drop sl (f # fs))) = uploader_of sl \<sigma> \<and>
    filter is_callback (effects (step \<sigma> (Drop sl (f # fs)))) = filter is_callback (effects \<sigma>)"
  using assms by (simp add: handleFileChange_def handleDrop_def)

theorem non_image_rejected_witness:
  "\<not> isImage document_pdf \<and>
   handleFileChange [document_pdf] initial_uploader =
     (initial_uploader, [Alert (str ''Please select an image file.'')]) \<and>
   handleDrop [document_pdf] initial_uploader =
     (initial_uploader, [PreventDefault, StopPropagation, Alert (str ''Please drop an image file.'')]) \<and>
   app (step (run fill_form) (Drop ProductSlot [document_pdf])) = app (run fill_form) \<and>
   app (step (run fill_form) (InputChange ProductSlot [document_pdf])) = app (run fill_form)"
proof -
  have h: "\<not> isImage document_pdf" by (rule files_are_images)
  note t = non_image_rejected [OF h, where fs = "[]" and u = initial_uploader
      and \<sigma> = "run fill_form" and sl = ProductSlot]
  from t h show ?thesis by blast
qed

text \<open>
  C7. For an image file, chosen in the dialog or dropped, the handler calls
  \<open>onFileChange\<close> once in its own turn, with the file itself, and the parent stores that
  file. The turn only starts the read and leaves the preview as it was; the preview is
  written by \<open>onloadend\<close>, a later turn that calls nothing.
\<close>

theorem image_reported_once_in_turn:
  assumes "isImage f"
  shows "handleFileChange (f # fs) u = (u, [ReadAsDataURL f, OnFileChange (Some f)]) \<and>
    snd (handleDrop (f # fs) u) =
      [PreventDefault, StopPropagation, ReadAsDataURL f, OnFileChange (Some f)] \<and>
    preview (fst (handleDrop (f # fs) u)) = preview u \<and>
    filter is_callback (snd (handleFileChange (f # fs) u)) = [OnFileChange (Some f)] \<and>
    filter is_callback (snd (handleDrop (f # fs) u)) = [OnFileChange (Some f)] \<and>
    image_of sl (app (step \<sigma> (InputChange sl (f # fs)))) = Some f \<and>
    image_of sl (app (step \<sigma> (Drop sl (f # fs)))) = Some f \<and>
    preview (uploader_of sl (step \<sigma> (InputChange sl (f # fs)))) = preview (uploader_of sl \<sigma>) \<and>
    preview (uploader_of sl (step \<sigma> (Drop sl (f # fs)))) = preview (uploader_of sl \<sigma>) \<and>
    onloadend r u = (u\<lparr>preview := r\<rparr>, [])"
  using assms by (simp add: handleFileChange_def handleDrop_def onloadend_def)

theorem image_reported_once_in_turn_witness:
  "isImage cat_png \<and>
   handleFileChange [cat_png] initial_uploader =
     (initial_uploader, [ReadAsDataURL cat_png, OnFileChange (Some cat_png)]) \<and>
   filter is_callback (snd (handleDrop [cat_png] initial_uploader)) = [OnFileChange (Some cat_png)] \<and>
   image_of LogoSlot (app (step initial_sys (Drop LogoSlot [cat_png]))) = Some cat_png \<and>
   preview (uploader_of LogoSlot (step initial_sys (Drop LogoSlot [cat_png]))) =
     preview (uploader_of LogoSlot initial_sys)"
proof -
  have h: "isImage cat_png" by (rule files_are_images)
  note t = image_reported_once_in_turn [OF h, where fs = "[]" and u = initial_uploader
      and \<sigma> = initial_sys and sl = LogoSlot]
  from t h show ?thesis by blast
qed

text \<open>
  C9. After an image has been dropped on an uploader of the mounted application, the
  file list of that uploader's hidden file input is exactly the dropped file, which is
  also the file the parent was given.
\<close>

theorem drop_synchronises_file_input:
  assumes "isImage f"
  shows "fileInputRef (uploader_of sl (run (evs @ [Drop sl (f # fs)]))) = Some [f] \<and>
    image_of sl (app (run (evs @ [Drop sl (f # fs)]))) = Some f"
proof -
  have "ref_ok (run evs)" by (rule ref_ok_run)
  then have "fileInputRef (uploader_of sl (run evs)) \<noteq> None"
    by (cases sl) (simp_all add: ref_ok_def)
  with assms show ?thesis
    by (auto simp: run_snoc handleDrop_def)
qed

theorem drop_synchronises_file_input_witness:
  "isImage logo_png \<and>
   fileInputRef (uploader_of ProductSlot (run (fill_form @ [Drop ProductSlot [logo_png, document_pdf]]))) =
     Some [logo_png] \<and>
   image_of ProductSlot (app (run (fill_form @ [Drop ProductSlot [logo_png, document_pdf]]))) =
     Some logo_png"
proof -
  have h: "isImage logo_png" by (rule files_are_images)
  from drop_synchronises_file_input [OF h, where sl = ProductSlot and evs = fill_form
      and fs = "[document_pdf]"] h
  show ?thesis by blast
qed


section \<open>The submit button\<close>

text \<open>
  C8, as amended. A click on the button is a no-op whenever the last render shows a
  submission loading or an incomplete form. When every click is separated from the
  click before it by a render, at most one call of \<open>handleGenerate\<close> is suspended at any
  time, and one is suspended exactly while \<open>isLoading\<close> is set.
\<close>

theorem disabled_click_inert_and_paced_single_flight:
  "(isLoading (committed \<sigma>) \<or> \<not> isFormValid (committed \<sigma>) \<longrightarrow> step \<sigma> ClickGenerate = \<sigma>) \<and>
   (paced True evs \<longrightarrow>
      length (pending (run evs)) \<le> 1 \<and>
      (pending (run evs) \<noteq> [] \<longleftrightarrow> isLoading (app (run evs))))"
proof -
  have "length (pending (run evs)) \<le> 1 \<and> (pending (run evs) \<noteq> [] \<longleftrightarrow> isLoading (app (run evs)))"
    if "paced True evs"
    using result_ok_run [OF that] by (simp add: result_ok_def)
  then show ?thesis by (auto simp: submit_disabled_def)
qed

theorem disabled_click_inert_and_paced_single_flight_witness:
  "isLoading (committed (run (awaiting_result @ [Render]))) \<and>
   step (run (awaiting_result @ [Render])) ClickGenerate = run (awaiting_result @ [Render]) \<and>
   paced True (awaiting_result @ [Render]) \<and>
   length (pending (run (awaiting_result @ [Render]))) \<le> 1"
proof -
  have h: "isLoading (committed (run (awaiting_result @ [Render])))"
    by (simp add: run_snoc run_awaiting_result)
  have q: "paced True (awaiting_result @ [Render])" by (rule paced_examples)
  from disabled_click_inert_and_paced_single_flight
    [of "run (awaiting_result @ [Render])" "awaiting_result @ [Render]"] h q
  show ?thesis by blast
qed

text \<open>
  C8 as stated fails: on the complete form, a second click dispatched before the
  component has rendered again finds the button of the last render enabled, and a
  second submission starts while the first is in flight.
\<close>

theorem double_click_two_in_flight:
  "isLoading (app (run (fill_form @ [ClickGenerate]))) \<and>
   length (pending (run (fill_form @ [ClickGenerate]))) = 1 \<and>
   length (pending (run double_click)) = 2 \<and>
   filter (\<lambda>e. e = FileToBase64 cat_png) (effects (run double_click)) =
     [FileToBase64 cat_png, FileToBase64 cat_png]"
  by (simp add: double_click_def eval_click)

end
